theory Spec2Isabelle
  imports Main "HOL-Library.Signed_Division"
begin

section \<open>The multispinner library as a shallow embedding\<close>

text \<open>
  The library (package \<open>multispinner\<close>) multiplexes several progress spinners onto one
  terminal.  Its data are the structs \<open>Spinner\<close>, \<open>spinnerInfo\<close>, \<open>updateMsg\<close> and
  \<open>Config\<close>; its operations are \<open>Create\<close>, \<open>Register\<close>, \<open>Message\<close>, \<open>Start\<close>, \<open>Stop\<close>,
  \<open>StopWithError\<close> and the goroutine \<open>run\<close>.

  Go strings are byte sequences, so a string is a \<open>char list\<close> and the glyphs of the
  program are written as their UTF-8 bytes.  Go's \<open>int\<close> is modelled as \<open>int\<close>: the only
  arithmetic on it is counting registrations and active spinners by one, and a slice
  cannot hold \<open>2^63\<close> records.  A \<open>time.Duration\<close> is its number of nanoseconds.
\<close>

subsection \<open>Terminal output\<close>

text \<open>
  What the program does to the outside world: \<open>fmt.Print\<close>/\<open>fmt.Printf\<close> write bytes to
  standard output, \<open>os.Stdout.Sync\<close> flushes it, \<open>time.Sleep\<close> waits.
\<close>

datatype effect = Print string | Sync | Sleep int

abbreviation (input) ESC :: char where
  "ESC \<equiv> CHR 0x1B"

text \<open>The operands the program passes to \<open>Printf\<close> are strings and ints.\<close>

datatype arg = S string | I int

fun itoa_nat :: "nat \<Rightarrow> string" where
  "itoa_nat n =
     (if n < 10 then [char_of (48 + n)]
      else itoa_nat (n div 10) @ [char_of (48 + n mod 10)])"

declare itoa_nat.simps [simp del]

definition itoa :: "int \<Rightarrow> string" where
  "itoa k = (if k < 0 then CHR ''-'' # itoa_nat (nat (- k)) else itoa_nat (nat k))"

text \<open>The number that a string of decimal digits denotes, to state what \<open>itoa\<close> prints.\<close>

definition decimal :: "string \<Rightarrow> nat" where
  "decimal cs = foldl (\<lambda>n c. 10 * n + (of_char c - 48)) 0 cs"

fun typed :: "arg \<Rightarrow> string" where
  "typed (S x) = ''string='' @ x"
| "typed (I k) = ''int='' @ itoa k"

fun verb :: "char \<Rightarrow> arg \<Rightarrow> string" where
  "verb v (S x) = (if v = CHR ''s'' then x else ''%!'' @ [v] @ ''('' @ typed (S x) @ '')'')"
| "verb v (I k) = (if v = CHR ''d'' then itoa k else ''%!'' @ [v] @ ''('' @ typed (I k) @ '')'')"

fun extra :: "arg list \<Rightarrow> string" where
  "extra [] = []"
| "extra [a] = typed a"
| "extra (a # b # rest) = typed a @ '', '' @ extra (b # rest)"

text \<open>
  \<open>fmt.Sprintf\<close> on the fragment the program uses: the verbs \<open>%s\<close> (string operand) and
  \<open>%d\<close> (int operand) and the escape \<open>%%\<close>.  A missing operand, an operand of the wrong
  type and left-over operands print Go's error markers.  Every call of the program is
  inside the fragment.
\<close>

fun Sprintf :: "string \<Rightarrow> arg list \<Rightarrow> string" where
  "Sprintf [] [] = []"
| "Sprintf [] (a # as) = ''%!(EXTRA '' @ extra (a # as) @ '')''"
| "Sprintf [c] as = (if c = CHR ''%'' then ''%!(NOVERB)'' else c # Sprintf [] as)"
| "Sprintf (c # v # rest) as =
     (if c \<noteq> CHR ''%'' then c # Sprintf (v # rest) as
      else if v = CHR ''%'' then CHR ''%'' # Sprintf rest as
      else (case as of
              [] \<Rightarrow> ''%!'' @ [v] @ ''(MISSING)'' @ Sprintf rest []
            | a # as' \<Rightarrow> verb v a @ Sprintf rest as'))"

subsection \<open>Data\<close>

record spinnerInfo =
  message :: string
  index :: int
  active :: bool
  lineNum :: int

text \<open>
  The fields of \<open>updateMsg\<close> are \<open>index\<close>, \<open>message\<close> and \<open>action\<close> in the source; the
  first two carry a prefix here because \<open>spinnerInfo\<close> has fields of the same names.
\<close>

record updateMsg =
  u_index :: int
  u_message :: string
  action :: string

record Config =
  SuccessColor :: string
  FailureColor :: string
  Frequency :: int

text \<open>
  The struct \<open>Spinner\<close> without its mutex and its two channels, which are synchronisation
  and appear below as the scheduling of calls and loop iterations.  The slice holds
  pointers to records that are allocated at registration and never shared between two
  slots, so a list of records updated in place models it.
\<close>

record Spinner =
  spinners :: "spinnerInfo list"
  successColor :: string
  failureColor :: string
  frequency :: int
  currentLine :: int
  activeCount :: int
  startLine :: int

text \<open>A run-time panic of Go.\<close>

datatype fault = IndexOutOfRange int nat

text \<open>Indexing a slice: Go checks the bounds and panics outside them.\<close>

definition slice_index :: "'a list \<Rightarrow> int \<Rightarrow> fault + 'a" where
  "slice_index xs k =
     (if 0 \<le> k \<and> k < int (length xs) then Inr (xs ! nat k)
      else Inl (IndexOutOfRange k (length xs)))"

subsection \<open>Creation\<close>

definition DefaultConfig :: Config where
  "DefaultConfig =
     \<lparr>SuccessColor = ESC # ''[32m'', FailureColor = ESC # ''[31m'', Frequency = 100 * 1000000\<rparr>"

text \<open>
  \<open>Create\<close> returns the new \<open>Spinner\<close> and what it printed.  The field \<open>activeCount\<close>
  is not set by the struct literal and has Go's zero value.
\<close>

definition Create :: "Config \<Rightarrow> Spinner \<times> effect list" where
  "Create config =
     (let config = (if Frequency config = 0
                    then config\<lparr>Frequency := Frequency DefaultConfig\<rparr> else config);
          config = (if SuccessColor config = []
                    then config\<lparr>SuccessColor := SuccessColor DefaultConfig\<rparr> else config);
          config = (if FailureColor config = []
                    then config\<lparr>FailureColor := FailureColor DefaultConfig\<rparr> else config)
      in (\<lparr>spinners = [],
           successColor = SuccessColor config,
           failureColor = FailureColor config,
           frequency = Frequency config,
           currentLine = 0,
           activeCount = 0,
           startLine = 0\<rparr>,
          [Print (ESC # ''[?25h''), Print (ESC # ''[0m''), Print (ESC # ''[s'')]))"

subsection \<open>The calls of the API, as the caller's goroutine executes them\<close>

text \<open>
  A call returns the \<open>Spinner\<close> as it leaves it, the messages it sent on \<open>updateChan\<close>
  and, after them, what it printed itself.  \<open>Inl\<close> is a panic.
\<close>

definition Register :: "Spinner \<Rightarrow> int \<times> Spinner" where
  "Register s =
     (let idx = int (length (spinners s))
      in (idx,
          s\<lparr>spinners := spinners s @
               [\<lparr>message = [], index = idx, active = False, lineNum = currentLine s\<rparr>],
            currentLine := currentLine s + 1\<rparr>))"

definition Message :: "Spinner \<Rightarrow> int \<Rightarrow> string \<Rightarrow> Spinner \<times> updateMsg list \<times> effect list" where
  "Message s idx text =
     (s, [\<lparr>u_index = idx, u_message = text, action = ''update''\<rparr>], [])"

definition Start ::
  "Spinner \<Rightarrow> int \<Rightarrow> string \<Rightarrow> fault + Spinner \<times> updateMsg list \<times> effect list" where
  "Start s idx text =
     (if idx \<ge> int (length (spinners s)) then Inr (s, [], [])
      else case slice_index (spinners s) idx of
             Inl f \<Rightarrow> Inl f
           | Inr spinner \<Rightarrow>
               Inr (s\<lparr>spinners := (spinners s)[nat idx := spinner\<lparr>message := text, active := True\<rparr>]\<rparr>,
                    [\<lparr>u_index = idx, u_message = text, action = ''start''\<rparr>],
                    []))"

text \<open>The three prints that end \<open>Stop\<close> and \<open>StopWithError\<close>, and the flush.\<close>

definition final_paint :: "spinnerInfo \<Rightarrow> string \<Rightarrow> string \<Rightarrow> string \<Rightarrow> effect list" where
  "final_paint spinner color glyph text =
     [Print (ESC # ''[u'')] @
     (if lineNum spinner > 0 then [Print (Sprintf (ESC # ''[%dB'') [I (lineNum spinner)])] else []) @
     [Print (Sprintf (ESC # ''[K%s %s'' @ ESC # ''[0m'' @ [CHR 0x0A]) [S (color @ glyph @ color), S text]),
      Sync]"

definition Stop ::
  "Spinner \<Rightarrow> int \<Rightarrow> string \<Rightarrow> fault + Spinner \<times> updateMsg list \<times> effect list" where
  "Stop s idx text =
     (if idx \<ge> int (length (spinners s)) then Inr (s, [], [])
      else case slice_index (spinners s) idx of
             Inl f \<Rightarrow> Inl f
           | Inr spinner \<Rightarrow>
               if \<not> active spinner then Inr (s, [], [])
               else Inr (s\<lparr>spinners := (spinners s)[nat idx := spinner\<lparr>active := False\<rparr>]\<rparr>,
                         [\<lparr>u_index = idx, u_message = text, action = ''stop''\<rparr>],
                         final_paint spinner (successColor s) [CHR 0xE2, CHR 0x9C, CHR 0x93] text))"

definition StopWithError ::
  "Spinner \<Rightarrow> int \<Rightarrow> string \<Rightarrow> fault + Spinner \<times> updateMsg list \<times> effect list" where
  "StopWithError s idx error =
     (if idx \<ge> int (length (spinners s)) then Inr (s, [], [])
      else case slice_index (spinners s) idx of
             Inl f \<Rightarrow> Inl f
           | Inr spinner \<Rightarrow>
               if \<not> active spinner then Inr (s, [], [])
               else Inr (s\<lparr>spinners := (spinners s)[nat idx := spinner\<lparr>active := False\<rparr>]\<rparr>,
                         [\<lparr>u_index = idx, u_message = error, action = ''error''\<rparr>],
                         final_paint spinner (failureColor s) [CHR 0xE2, CHR 0x9C, CHR 0x97] error))"

subsection \<open>The goroutine \<open>run\<close>\<close>

definition chars :: "string list" where
  "chars =
     [[CHR 0xE2, CHR 0xA0, CHR 0x8B], [CHR 0xE2, CHR 0xA0, CHR 0x99],
      [CHR 0xE2, CHR 0xA0, CHR 0xB9], [CHR 0xE2, CHR 0xA0, CHR 0xB8],
      [CHR 0xE2, CHR 0xA0, CHR 0xBC], [CHR 0xE2, CHR 0xA0, CHR 0xB4],
      [CHR 0xE2, CHR 0xA0, CHR 0xA6], [CHR 0xE2, CHR 0xA0, CHR 0xA7],
      [CHR 0xE2, CHR 0xA0, CHR 0x87], [CHR 0xE2, CHR 0xA0, CHR 0x8F]]"

text \<open>The local variables \<open>i\<close> and \<open>firstRun\<close> of \<open>run\<close>, and their initial values.\<close>

record loop =
  loop_i :: int
  firstRun :: bool

definition run_init :: loop where
  "run_init = \<lparr>loop_i = 0, firstRun = True\<rparr>"

text \<open>Which case of the \<open>select\<close> an iteration of the loop takes.\<close>

datatype selected = StopChan | UpdateChan updateMsg | Default

text \<open>The \<open>for ... range s.spinners\<close> of the default case.\<close>

fun paint :: "int \<Rightarrow> spinnerInfo list \<Rightarrow> fault + effect list" where
  "paint k [] = Inr []"
| "paint k (spinner # rest) =
     (if active spinner then
        (case slice_index chars k of
           Inl f \<Rightarrow> Inl f
         | Inr glyph \<Rightarrow>
             (case paint k rest of
                Inl f \<Rightarrow> Inl f
              | Inr out \<Rightarrow>
                  Inr ([Print (ESC # ''[u'')] @
                       (if lineNum spinner > 0
                        then [Print (Sprintf (ESC # ''[%dB'') [I (lineNum spinner)])] else []) @
                       [Print (Sprintf (ESC # ''[K'' @ ESC # ''[0m%s %s'')
                                 [S glyph, S (message spinner)])] @
                       out)))
      else paint k rest)"

text \<open>
  One iteration of the \<open>for\<close> loop of \<open>run\<close>: the new \<open>Spinner\<close> and locals, what was
  printed, and whether the goroutine returned.  Go's \<open>%\<close> truncates, which is \<open>smod\<close>.
\<close>

definition iteration ::
  "Spinner \<Rightarrow> loop \<Rightarrow> selected \<Rightarrow> fault + Spinner \<times> loop \<times> effect list \<times> bool" where
  "iteration s l sel =
     (case sel of
        StopChan \<Rightarrow> Inr (s, l, [Print (ESC # ''[?25h''), Print (ESC # ''[0m'')], True)
      | UpdateChan msg \<Rightarrow>
          if action msg = ''start'' then
            Inr (s\<lparr>activeCount := activeCount s + 1\<rparr>, l,
                 (if activeCount s = 0 then [Print (ESC # ''[?25l'')] else []), False)
          else if action msg = ''stop'' \<or> action msg = ''error'' then
            Inr (s\<lparr>activeCount := activeCount s - 1\<rparr>, l,
                 (if activeCount s - 1 = 0
                  then [Print (ESC # ''[?25h''), Print (ESC # ''[0m'')] else []), False)
          else Inr (s, l, [], False)
      | Default \<Rightarrow>
          if activeCount s > 0 then
            (case paint (loop_i l) (spinners s) of
               Inl f \<Rightarrow> Inl f
             | Inr out \<Rightarrow>
                 Inr (s,
                      l\<lparr>loop_i := (loop_i l + 1) smod int (length chars), firstRun := False\<rparr>,
                      (if firstRun l then [] else [Sleep (frequency s)]) @ out,
                      False))
          else Inr (s, l, [], False))"

subsection \<open>Callers and the loop together\<close>

text \<open>
  The program is concurrent: any number of goroutines call the API while \<open>run\<close> loops.
  A schedule is a list of steps, each of which the program takes as a whole:
  \<^item> the part of a call up to its \<open>Unlock\<close> (all of \<open>Register\<close>, nothing of \<open>Message\<close>): it
    writes the fields, and from then on the call is in flight, with the messages it
    has still to send and, after them, the prints it has still to make;
  \<^item> the hand-over of the next message of a call in flight: \<open>updateChan\<close> is unbuffered,
    so the send and the loop's receive are one event, and the loop handles the message
    before its next \<open>select\<close> (the handling writes \<open>activeCount\<close> only, which no call
    touches);
  \<^item> one print of a call in flight that has sent its messages;
  \<^item> an idle iteration of the loop (the default case), or the arrival of the stop signal.

  The steps of the calls and of the loop come in whatever order the schedule has them:
  an idle iteration can fall between the locked part of a call and its send, and the
  prints of a call can be separated by prints of the loop and of other calls.  A step
  that the program cannot take in a state (a hand-over when the loop has returned, a
  print of a call that has not sent its message) leaves the state as it is, so such a
  call stays in flight for ever.  The prints of \<open>Stop\<close> and \<open>StopWithError\<close> read
  \<open>lineNum\<close> and the colour after the \<open>Unlock\<close>; no step writes either, so they are
  computed with the locked part.
\<close>

type_synonym flight = "updateMsg list \<times> effect list"

record system =
  sp :: Spinner
  lp :: loop
  terminal :: "effect list"
  running :: bool
  calls :: "flight list"

datatype act =
  CallRegister
| CallMessage int string
| CallStart int string
| CallStop int string
| CallStopWithError int string
| Handover nat
| Emit nat
| Tick
| Terminate

definition boot :: "Config \<Rightarrow> system" where
  "boot config =
     \<lparr>sp = fst (Create config), lp = run_init, terminal = snd (Create config), running = True,
      calls = []\<rparr>"

definition loop_takes :: "system \<Rightarrow> selected \<Rightarrow> fault + system" where
  "loop_takes sys sel =
     (case iteration (sp sys) (lp sys) sel of
        Inl f \<Rightarrow> Inl f
      | Inr (s, l, out, returned) \<Rightarrow>
          Inr (sys\<lparr>sp := s, lp := l, terminal := terminal sys @ out, running := \<not> returned\<rparr>))"

text \<open>The locked part of a call: a panic, or the call joins the calls in flight.\<close>

definition begins ::
  "system \<Rightarrow> fault + Spinner \<times> updateMsg list \<times> effect list \<Rightarrow> fault + system" where
  "begins sys r =
     (case r of
        Inl f \<Rightarrow> Inl f
      | Inr (s, sent, out) \<Rightarrow> Inr (sys\<lparr>sp := s, calls := calls sys @ [(sent, out)]\<rparr>))"

text \<open>The loop takes the next message of call \<open>k\<close>.\<close>

definition handover :: "system \<Rightarrow> nat \<Rightarrow> fault + system" where
  "handover sys k =
     (if running sys \<and> k < length (calls sys) then
        (case calls sys ! k of
           ([], out) \<Rightarrow> Inr sys
         | (msg # rest, out) \<Rightarrow>
             (case loop_takes sys (UpdateChan msg) of
                Inl f \<Rightarrow> Inl f
              | Inr sys' \<Rightarrow> Inr (sys'\<lparr>calls := (calls sys)[k := (rest, out)]\<rparr>)))
      else Inr sys)"

text \<open>Call \<open>k\<close>, with nothing left to send, makes its next print.\<close>

definition emit :: "system \<Rightarrow> nat \<Rightarrow> system" where
  "emit sys k =
     (if k < length (calls sys) then
        (case calls sys ! k of
           ([], e # out) \<Rightarrow>
             sys\<lparr>terminal := terminal sys @ [e], calls := (calls sys)[k := ([], out)]\<rparr>
         | _ \<Rightarrow> sys)
      else sys)"

fun step :: "system \<Rightarrow> act \<Rightarrow> fault + system" where
  "step sys CallRegister = Inr (sys\<lparr>sp := snd (Register (sp sys))\<rparr>)"
| "step sys (CallMessage idx text) = begins sys (Inr (Message (sp sys) idx text))"
| "step sys (CallStart idx text) = begins sys (Start (sp sys) idx text)"
| "step sys (CallStop idx text) = begins sys (Stop (sp sys) idx text)"
| "step sys (CallStopWithError idx text) = begins sys (StopWithError (sp sys) idx text)"
| "step sys (Handover k) = handover sys k"
| "step sys (Emit k) = Inr (emit sys k)"
| "step sys Tick = (if running sys then loop_takes sys Default else Inr sys)"
| "step sys Terminate = (if running sys then loop_takes sys StopChan else Inr sys)"

fun exec :: "system \<Rightarrow> act list \<Rightarrow> fault + system" where
  "exec sys [] = Inr sys"
| "exec sys (a # as) = (case step sys a of Inl f \<Rightarrow> Inl f | Inr sys' \<Rightarrow> exec sys' as)"

text \<open>\<open>n\<close> calls of \<open>Register\<close> in a row, with the indices they return.\<close>

fun registers :: "nat \<Rightarrow> Spinner \<Rightarrow> int list \<times> Spinner" where
  "registers 0 s = ([], s)"
| "registers (Suc n) s =
     (let (idx, s') = Register s; (idxs, s'') = registers n s' in (idx # idxs, s''))"

section \<open>Properties\<close>

text \<open>The definitions a run of the system on concrete inputs unfolds.\<close>

lemmas model_defs =
  boot_def Create_def DefaultConfig_def run_init_def Register_def Message_def Start_def Stop_def
  StopWithError_def final_paint_def begins_def handover_def emit_def loop_takes_def iteration_def slice_index_def
  chars_def signed_modulo_int_def Let_def

subsection \<open>Formatting at the call sites\<close>

lemma Sprintf_down [simp]: "Sprintf (ESC # ''[%dB'') [I k] = ESC # ''['' @ itoa k @ ''B''"
  by simp

lemma Sprintf_final [simp]:
  "Sprintf (ESC # ''[K%s %s'' @ ESC # ''[0m'' @ [CHR 0x0A]) [S a, S b] =
     ESC # ''[K'' @ a @ '' '' @ b @ ESC # ''[0m'' @ [CHR 0x0A]"
  by simp

lemma Sprintf_frame [simp]:
  "Sprintf (ESC # ''[K'' @ ESC # ''[0m%s %s'') [S a, S b] =
     ESC # ''[K'' @ ESC # ''[0m'' @ a @ '' '' @ b"
  by simp

text \<open>
  \<open>itoa\<close> prints the decimal numeral of its argument: digits only, no leading zero,
  and the value read back is the argument.
\<close>

lemma decimal_itoa_nat: "decimal (itoa_nat n) = n"
proof (induction n rule: itoa_nat.induct)
  case (1 n)
  show ?case
  proof (cases "n < 10")
    case True
    then show ?thesis by (simp add: itoa_nat.simps [of n] decimal_def)
  next
    case False
    have d: "(48 + n mod 10) mod 256 = 48 + n mod 10"
      by (rule mod_less) (simp add: less_le_trans [OF add_strict_left_mono [OF mod_less_divisor [of 10 n]]])
    from False 1 have "decimal (itoa_nat (n div 10)) = n div 10" by simp
    with False show ?thesis
      by (simp add: itoa_nat.simps [of n] decimal_def d)
  qed
qed

lemma digits_itoa_nat: "c \<in> set (itoa_nat n) \<Longrightarrow> 48 \<le> (of_char c :: nat) \<and> (of_char c :: nat) \<le> 57"
proof (induction n rule: itoa_nat.induct)
  case (1 n)
  show ?case
  proof (cases "n < 10")
    case True
    with 1(2) show ?thesis by (simp add: itoa_nat.simps [of n])
  next
    case False
    have "n mod 10 < 10" by simp
    then have d: "(48 + n mod 10) mod 256 = 48 + n mod 10" by simp
    from False 1 d show ?thesis
      by (auto simp: itoa_nat.simps [of n])
  qed
qed

lemma itoa_nat_not_empty: "itoa_nat n \<noteq> []"
  by (simp add: itoa_nat.simps [of n])

lemma no_leading_zero: "0 < n \<Longrightarrow> (of_char (hd (itoa_nat n)) :: nat) \<noteq> 48"
proof (induction n rule: itoa_nat.induct)
  case (1 n)
  show ?case
  proof (cases "n < 10")
    case True
    with 1(2) show ?thesis by (simp add: itoa_nat.simps [of n])
  next
    case False
    then have "0 < n div 10" by simp
    with False 1 have "(of_char (hd (itoa_nat (n div 10))) :: nat) \<noteq> 48" by simp
    with False show ?thesis
      by (simp add: itoa_nat.simps [of n] itoa_nat_not_empty)
  qed
qed

lemma itoa_nonneg: "0 \<le> k \<Longrightarrow> decimal (itoa k) = nat k"
  by (simp add: itoa_def decimal_itoa_nat)

subsection \<open>Registration\<close>

lemma registers_from:
  "currentLine s = int (length (spinners s)) \<Longrightarrow>
   fst (registers n s) = map (\<lambda>k. int (length (spinners s) + k)) [0..<n] \<and>
   spinners (snd (registers n s)) =
     spinners s @ map (\<lambda>k. \<lparr>message = [], index = int (length (spinners s) + k), active = False,
                               lineNum = int (length (spinners s) + k)\<rparr>) [0..<n]"
proof (induction n arbitrary: s)
  case 0
  then show ?case by simp
next
  case (Suc n)
  let ?s' = "snd (Register s)"
  have cl: "currentLine ?s' = int (length (spinners ?s'))"
    using Suc.prems by (simp add: Register_def Let_def)
  have len: "length (spinners ?s') = Suc (length (spinners s))"
    by (simp add: Register_def Let_def)
  have sp: "spinners ?s' = spinners s @
      [\<lparr>message = [], index = int (length (spinners s)), active = False,
        lineNum = int (length (spinners s))\<rparr>]"
    using Suc.prems by (simp add: Register_def Let_def)
  have r: "registers (Suc n) s =
      (fst (Register s) # fst (registers n ?s'), snd (registers n ?s'))"
    by (simp add: split_beta Let_def)
  have f: "fst (Register s) = int (length (spinners s))"
    by (simp add: Register_def Let_def)
  show ?case
    using Suc.IH [OF cl] by (simp only: r fst_conv snd_conv f len sp map_upt_Suc) simp
qed

text \<open>
  C1.  On a freshly created \<open>Spinner\<close>, \<open>n\<close> calls of \<open>Register\<close> return the indices
  \<open>0, 1, ..., n - 1\<close> in call order, and the record in slot \<open>k\<close> carries \<open>index = k\<close> and
  \<open>lineNum = k\<close>.
\<close>

theorem Register_indices_and_lines:
  "fst (registers n (fst (Create config))) = map int [0..<n] \<and>
   map index (spinners (snd (registers n (fst (Create config))))) = map int [0..<n] \<and>
   map lineNum (spinners (snd (registers n (fst (Create config))))) = map int [0..<n]"
proof -
  have c: "currentLine (fst (Create config)) = int (length (spinners (fst (Create config))))"
    by (simp add: Create_def Let_def)
  have e: "spinners (fst (Create config)) = []"
    by (simp add: Create_def Let_def)
  show ?thesis
    using registers_from [OF c, of n] by (simp add: e comp_def)
qed

subsection \<open>Indices outside the registered range\<close>

lemma Start_beyond_range:
  "int (length (spinners s)) \<le> idx \<Longrightarrow> Start s idx text = Inr (s, [], [])"
  by (simp add: Start_def)

lemma Stop_beyond_range:
  "int (length (spinners s)) \<le> idx \<Longrightarrow>
   Stop s idx text = Inr (s, [], []) \<and> StopWithError s idx text = Inr (s, [], [])"
  by (simp add: Stop_def StopWithError_def)

lemma Stop_inactive:
  "0 \<le> idx \<Longrightarrow> idx < int (length (spinners s)) \<Longrightarrow> \<not> active (spinners s ! nat idx) \<Longrightarrow>
   Stop s idx text = Inr (s, [], []) \<and> StopWithError s idx text = Inr (s, [], [])"
  by (simp add: Stop_def StopWithError_def slice_index_def)

text \<open>
  C2.  \<open>Start\<close> guards only against indices at or above the number of registered
  spinners.  A negative index passes the guard and reaches \<open>s.spinners[index]\<close>, which
  panics: \<open>Start\<close> with index \<open>-1\<close> is not a no-op in any state.
\<close>

theorem Start_negative_index:
  "Start s (- 1) text = Inl (IndexOutOfRange (- 1) (length (spinners s)))"
  by (simp add: Start_def slice_index_def)

text \<open>
  C5.  \<open>Stop\<close> and \<open>StopWithError\<close> have the same one-sided guard: with index \<open>-1\<close>
  both panic at \<open>s.spinners[index]\<close> instead of returning.
\<close>

theorem Stop_negative_index:
  "Stop s (- 1) text = Inl (IndexOutOfRange (- 1) (length (spinners s))) \<and>
   StopWithError s (- 1) text = Inl (IndexOutOfRange (- 1) (length (spinners s)))"
  by (simp add: Stop_def StopWithError_def slice_index_def)

subsection \<open>What a step leaves alone\<close>

lemma iteration_frame:
  "iteration s l sel = Inr (s', l', out, r) \<Longrightarrow>
   spinners s' = spinners s \<and> successColor s' = successColor s \<and>
   failureColor s' = failureColor s \<and> frequency s' = frequency s \<and>
   currentLine s' = currentLine s \<and> r = (sel = StopChan)"
  by (auto simp: iteration_def split: selected.splits if_splits sum.splits)

lemma loop_takes_frame:
  "loop_takes sys sel = Inr sys' \<Longrightarrow>
   spinners (sp sys') = spinners (sp sys) \<and> successColor (sp sys') = successColor (sp sys) \<and>
   failureColor (sp sys') = failureColor (sp sys) \<and> frequency (sp sys') = frequency (sp sys) \<and>
   currentLine (sp sys') = currentLine (sp sys) \<and> running sys' = (sel \<noteq> StopChan)"
  by (auto simp: loop_takes_def split: sum.splits dest!: iteration_frame)

lemma handover_frame:
  "handover sys k = Inr sys' \<Longrightarrow>
   spinners (sp sys') = spinners (sp sys) \<and> successColor (sp sys') = successColor (sp sys) \<and>
   failureColor (sp sys') = failureColor (sp sys) \<and> frequency (sp sys') = frequency (sp sys) \<and>
   currentLine (sp sys') = currentLine (sp sys) \<and> running sys' = running sys"
  by (auto simp: handover_def split: if_splits prod.splits list.splits sum.splits
      dest!: loop_takes_frame)

lemma emit_frame:
  "sp (emit sys k) = sp sys \<and> running (emit sys k) = running sys"
  by (simp add: emit_def split: prod.splits list.splits)

lemma begins_frame:
  "begins sys (Inr (s, sent, out)) = Inr sys' \<Longrightarrow> sp sys' = s \<and> running sys' = running sys"
  by (auto simp: begins_def)

lemma begins_InrE:
  assumes "begins sys r = Inr sys'"
  obtains s sent out where "r = Inr (s, sent, out)" and "begins sys (Inr (s, sent, out)) = Inr sys'"
  using assms by (cases r) (auto simp: begins_def)

lemma Start_frame:
  "Start s idx text = Inr (s', sent, out) \<Longrightarrow>
   successColor s' = successColor s \<and> failureColor s' = failureColor s \<and>
   frequency s' = frequency s \<and> currentLine s' = currentLine s \<and>
   length (spinners s') = length (spinners s) \<and>
   map lineNum (spinners s') = map lineNum (spinners s)"
  by (auto simp: Start_def slice_index_def map_update list_update_same_conv split: if_splits)

lemma Stop_frame:
  "Stop s idx text = Inr (s', sent, out) \<Longrightarrow>
   successColor s' = successColor s \<and> failureColor s' = failureColor s \<and>
   frequency s' = frequency s \<and> currentLine s' = currentLine s \<and>
   length (spinners s') = length (spinners s) \<and>
   map lineNum (spinners s') = map lineNum (spinners s)"
  by (auto simp: Stop_def slice_index_def map_update list_update_same_conv split: if_splits)

lemma StopWithError_frame:
  "StopWithError s idx text = Inr (s', sent, out) \<Longrightarrow>
   successColor s' = successColor s \<and> failureColor s' = failureColor s \<and>
   frequency s' = frequency s \<and> currentLine s' = currentLine s \<and>
   length (spinners s') = length (spinners s) \<and>
   map lineNum (spinners s') = map lineNum (spinners s)"
  by (auto simp: StopWithError_def slice_index_def map_update list_update_same_conv split: if_splits)

lemma step_config:
  assumes "step sys a = Inr sys'"
  shows "successColor (sp sys') = successColor (sp sys) \<and>
         failureColor (sp sys') = failureColor (sp sys) \<and>
         frequency (sp sys') = frequency (sp sys)"
proof (cases a)
  case CallRegister
  with assms show ?thesis by (auto simp: Register_def Let_def)
next
  case (CallMessage idx m)
  with assms show ?thesis by (auto simp: Message_def dest!: begins_frame)
next
  case (CallStart idx m)
  with assms obtain s sent out where "Start (sp sys) idx m = Inr (s, sent, out)"
    and "begins sys (Inr (s, sent, out)) = Inr sys'"
    by (auto elim: begins_InrE)
  then show ?thesis by (auto dest!: begins_frame Start_frame)
next
  case (CallStop idx m)
  with assms obtain s sent out where "Stop (sp sys) idx m = Inr (s, sent, out)"
    and "begins sys (Inr (s, sent, out)) = Inr sys'"
    by (auto elim: begins_InrE)
  then show ?thesis by (auto dest!: begins_frame Stop_frame)
next
  case (CallStopWithError idx m)
  with assms obtain s sent out where "StopWithError (sp sys) idx m = Inr (s, sent, out)"
    and "begins sys (Inr (s, sent, out)) = Inr sys'"
    by (auto elim: begins_InrE)
  then show ?thesis by (auto dest!: begins_frame StopWithError_frame)
next
  case (Handover k)
  with assms show ?thesis by (auto dest!: handover_frame)
next
  case (Emit k)
  with assms show ?thesis by (auto simp: emit_frame)
next
  case Tick
  with assms show ?thesis by (auto split: if_splits dest!: loop_takes_frame)
next
  case Terminate
  with assms show ?thesis by (auto split: if_splits dest!: loop_takes_frame)
qed

lemma exec_config:
  "exec sys acts = Inr sys' \<Longrightarrow>
   successColor (sp sys') = successColor (sp sys) \<and>
   failureColor (sp sys') = failureColor (sp sys) \<and>
   frequency (sp sys') = frequency (sp sys)"
proof (induction acts arbitrary: sys)
  case Nil
  then show ?case by simp
next
  case (Cons a acts)
  from Cons.prems obtain mid where s: "step sys a = Inr mid" and e: "exec mid acts = Inr sys'"
    by (auto split: sum.splits)
  from step_config [OF s] Cons.IH [OF e] show ?case by simp
qed

subsection \<open>Configuration\<close>

text \<open>
  C9.  \<open>Create\<close> replaces an empty \<open>SuccessColor\<close> by green, an empty \<open>FailureColor\<close>
  by red and a zero \<open>Frequency\<close> by 100 ms, and keeps every other value; whatever calls
  and loop iterations follow, the three fields of the \<open>Spinner\<close> still hold these values.
\<close>

theorem Create_defaults_kept:
  assumes "exec (boot config) acts = Inr sys"
  shows "successColor (sp sys) =
           (if SuccessColor config = [] then ESC # ''[32m'' else SuccessColor config) \<and>
         failureColor (sp sys) =
           (if FailureColor config = [] then ESC # ''[31m'' else FailureColor config) \<and>
         frequency (sp sys) =
           (if Frequency config = 0 then 100000000 else Frequency config)"
  using exec_config [OF assms] by (simp add: boot_def Create_def DefaultConfig_def Let_def)

theorem Create_defaults_kept_witness:
  "\<exists>sys. exec (boot \<lparr>SuccessColor = [], FailureColor = ''!'', Frequency = 0\<rparr>)
               [CallRegister, CallStart 0 ''a'', Handover 0, Tick, CallStop 0 ''b'', Handover 1, Emit 1] = Inr sys \<and>
         successColor (sp sys) = ESC # ''[32m'' \<and>
         failureColor (sp sys) = ''!'' \<and>
         frequency (sp sys) = 100000000"
proof -
  obtain sys where
    run: "exec (boot \<lparr>SuccessColor = [], FailureColor = ''!'', Frequency = 0\<rparr>)
            [CallRegister, CallStart 0 ''a'', Handover 0, Tick, CallStop 0 ''b'', Handover 1, Emit 1] = Inr sys"
    by (simp add: model_defs)
  from Create_defaults_kept [OF run] run show ?thesis
    by simp
qed

subsection \<open>Termination of the loop\<close>

lemma exec_append:
  "exec sys (as @ bs) = (case exec sys as of Inl f \<Rightarrow> Inl f | Inr mid \<Rightarrow> exec mid bs)"
  by (induction as arbitrary: sys) (auto split: sum.splits)

lemma step_running:
  assumes "step sys a = Inr sys'" and "a \<noteq> Terminate"
  shows "running sys' = running sys"
proof (cases a)
  case CallRegister
  with assms show ?thesis by auto
next
  case (CallMessage idx m)
  with assms show ?thesis by (auto simp: Message_def dest!: begins_frame)
next
  case (CallStart idx m)
  with assms show ?thesis by (auto elim!: begins_InrE dest!: begins_frame)
next
  case (CallStop idx m)
  with assms show ?thesis by (auto elim!: begins_InrE dest!: begins_frame)
next
  case (CallStopWithError idx m)
  with assms show ?thesis by (auto elim!: begins_InrE dest!: begins_frame)
next
  case (Handover k)
  with assms show ?thesis by (auto dest!: handover_frame)
next
  case (Emit k)
  with assms show ?thesis by (auto simp: emit_frame)
next
  case Tick
  with assms show ?thesis by (auto split: if_splits dest!: loop_takes_frame)
next
  case Terminate
  with assms show ?thesis by simp
qed

lemma exec_running:
  "exec sys acts = Inr sys' \<Longrightarrow> Terminate \<notin> set acts \<Longrightarrow> running sys' = running sys"
proof (induction acts arbitrary: sys)
  case Nil
  then show ?case by simp
next
  case (Cons a acts)
  from Cons.prems obtain mid where s: "step sys a = Inr mid" and e: "exec mid acts = Inr sys'"
    by (auto split: sum.splits)
  from Cons.prems have "a \<noteq> Terminate" and "Terminate \<notin> set acts" by auto
  with step_running [OF s] Cons.IH [OF e] show ?case by simp
qed

text \<open>
  C8.  When the loop, still running after any calls and idle iterations, takes the stop
  signal, it prints the show-cursor and the reset-attributes escapes and returns; no
  spinner need have been started.
\<close>

theorem run_stop_restores_terminal:
  assumes "exec (boot config) acts = Inr sys" and "Terminate \<notin> set acts"
  shows "exec (boot config) (acts @ [Terminate]) =
           Inr (sys\<lparr>terminal := terminal sys @ [Print (ESC # ''[?25h''), Print (ESC # ''[0m'')],
                    running := False\<rparr>)"
proof -
  have "running sys"
    using exec_running [OF assms] by (simp add: boot_def)
  then have "step sys Terminate =
      Inr (sys\<lparr>terminal := terminal sys @ [Print (ESC # ''[?25h''), Print (ESC # ''[0m'')],
               running := False\<rparr>)"
    by (simp add: loop_takes_def iteration_def)
  with assms(1) show ?thesis
    by (simp add: exec_append)
qed

theorem run_stop_restores_terminal_witness:
  "\<exists>sys. exec (boot DefaultConfig) [CallRegister, Tick] = Inr sys \<and>
         Terminate \<notin> set [CallRegister, Tick] \<and>
         exec (boot DefaultConfig) ([CallRegister, Tick] @ [Terminate]) =
           Inr (sys\<lparr>terminal := [Print (ESC # ''[?25h''), Print (ESC # ''[0m''), Print (ESC # ''[s''),
                                    Print (ESC # ''[?25h''), Print (ESC # ''[0m'')],
                    running := False\<rparr>)"
proof -
  obtain sys where run: "exec (boot DefaultConfig) [CallRegister, Tick] = Inr sys"
    and out: "terminal sys = [Print (ESC # ''[?25h''), Print (ESC # ''[0m''), Print (ESC # ''[s'')]"
    by (simp add: model_defs)
  have no: "Terminate \<notin> set [CallRegister, Tick]"
    by simp
  from run_stop_restores_terminal [OF run no] run no out show ?thesis
    by simp
qed

subsection \<open>Messages\<close>

lemma Message_writes_nothing:
  assumes "step sys (CallMessage idx m) = Inr sys'"
  shows "sp sys' = sp sys \<and> terminal sys' = terminal sys"
  using assms by (auto simp: Message_def begins_def)

lemma update_is_ignored:
  "action msg = ''update'' \<Longrightarrow> iteration s l (UpdateChan msg) = Inr (s, l, [], False)"
  by (simp add: iteration_def)

text \<open>
  C3.  \<open>Message\<close> only sends an \<open>update\<close> message, and the loop's \<open>switch\<close> has no case
  for that action: the text of the record is never written.  After \<open>Start(0, "A")\<close> and
  \<open>Message(0, "B")\<close>, each with its message taken by the loop, the record still holds
  \<open>A\<close>, and the next repaint prints \<open>A\<close>.
\<close>

theorem Message_does_not_update_text:
  "exec (boot DefaultConfig)
     [CallRegister, CallStart 0 ''A'', Handover 0, CallMessage 0 ''B'', Handover 1, Tick] =
     Inr \<lparr>sp = \<lparr>spinners = [\<lparr>message = ''A'', index = 0, active = True, lineNum = 0\<rparr>],
                successColor = ESC # ''[32m'', failureColor = ESC # ''[31m'',
                frequency = 100000000, currentLine = 1, activeCount = 1, startLine = 0\<rparr>,
          lp = \<lparr>loop_i = 1, firstRun = False\<rparr>,
          terminal =
            [Print (ESC # ''[?25h''), Print (ESC # ''[0m''), Print (ESC # ''[s''),
             Print (ESC # ''[?25l''),
             Print (ESC # ''[u''),
             Print (ESC # ''[K'' @ ESC # ''[0m'' @ [CHR 0xE2, CHR 0xA0, CHR 0x8B] @ '' A'')],
          running = True,
          calls = [([], []), ([], [])]\<rparr>"
  by code_simp

subsection \<open>Counting active spinners\<close>

text \<open>
  C4.  \<open>Start\<close> sends a \<open>start\<close> message whether or not the record is already active,
  and the loop adds one to \<open>activeCount\<close> for each; \<open>Stop\<close> on an inactive record sends
  nothing.  Two \<open>Start\<close> and two \<open>Stop\<close> calls on one spinner, each run to its end before
  the next, leave \<open>activeCount = 1\<close> with no record active, and the cursor, hidden once,
  is never shown again.
\<close>

theorem Start_twice_counts_twice:
  "exec (boot DefaultConfig)
     [CallRegister, CallStart 0 ''A'', Handover 0, CallStart 0 ''A'', Handover 1,
      CallStop 0 ''ok'', Handover 2, Emit 2, Emit 2, Emit 2, CallStop 0 ''ok''] =
     Inr \<lparr>sp = \<lparr>spinners = [\<lparr>message = ''A'', index = 0, active = False, lineNum = 0\<rparr>],
                successColor = ESC # ''[32m'', failureColor = ESC # ''[31m'',
                frequency = 100000000, currentLine = 1, activeCount = 1, startLine = 0\<rparr>,
          lp = \<lparr>loop_i = 0, firstRun = True\<rparr>,
          terminal =
            [Print (ESC # ''[?25h''), Print (ESC # ''[0m''), Print (ESC # ''[s''),
             Print (ESC # ''[?25l''),
             Print (ESC # ''[u''),
             Print (ESC # ''[K'' @ ESC # ''[32m'' @ [CHR 0xE2, CHR 0x9C, CHR 0x93] @
                    ESC # ''[32m ok'' @ ESC # ''[0m'' @ [CHR 0x0A]),
             Sync],
          running = True,
          calls = [([], []), ([], []), ([], []), ([], [])]\<rparr>"
  by code_simp

subsection \<open>The life of one spinner\<close>

lemma Start_other_index:
  assumes "Start s idx m = Inr (s', sent, out)" and "idx \<noteq> int k" and "k < length (spinners s)"
  shows "length (spinners s') = length (spinners s) \<and> spinners s' ! k = spinners s ! k"
  using assms by (auto simp: Start_def slice_index_def split: if_splits)

lemma Stop_keeps_inactive:
  assumes "Stop s idx m = Inr (s', sent, out)" and "k < length (spinners s)"
    and "\<not> active (spinners s ! k)"
  shows "length (spinners s') = length (spinners s) \<and> \<not> active (spinners s' ! k)"
  using assms by (auto simp: Stop_def slice_index_def nth_list_update split: if_splits)

lemma StopWithError_keeps_inactive:
  assumes "StopWithError s idx m = Inr (s', sent, out)" and "k < length (spinners s)"
    and "\<not> active (spinners s ! k)"
  shows "length (spinners s') = length (spinners s) \<and> \<not> active (spinners s' ! k)"
  using assms by (auto simp: StopWithError_def slice_index_def nth_list_update split: if_splits)

lemma step_keeps_inactive:
  assumes st: "step sys a = Inr sys'" and k: "k < length (spinners (sp sys))"
    and off: "\<not> active (spinners (sp sys) ! k)" and a: "\<forall>m. a \<noteq> CallStart (int k) m"
  shows "k < length (spinners (sp sys')) \<and> \<not> active (spinners (sp sys') ! k)"
proof (cases a)
  case CallRegister
  with st k off show ?thesis by (auto simp: Register_def Let_def nth_append)
next
  case (CallMessage idx m)
  with st have "sp sys' = sp sys" by (simp add: Message_writes_nothing)
  with k off show ?thesis by simp
next
  case (CallStart idx m)
  with st obtain s sent out where c: "Start (sp sys) idx m = Inr (s, sent, out)"
    and d: "begins sys (Inr (s, sent, out)) = Inr sys'"
    by (auto elim: begins_InrE)
  from a CallStart have "idx \<noteq> int k" by auto
  from Start_other_index [OF c this k] begins_frame [OF d] k off show ?thesis by simp
next
  case (CallStop idx m)
  with st obtain s sent out where c: "Stop (sp sys) idx m = Inr (s, sent, out)"
    and d: "begins sys (Inr (s, sent, out)) = Inr sys'"
    by (auto elim: begins_InrE)
  from Stop_keeps_inactive [OF c k off] begins_frame [OF d] k show ?thesis by simp
next
  case (CallStopWithError idx m)
  with st obtain s sent out where c: "StopWithError (sp sys) idx m = Inr (s, sent, out)"
    and d: "begins sys (Inr (s, sent, out)) = Inr sys'"
    by (auto elim: begins_InrE)
  from StopWithError_keeps_inactive [OF c k off] begins_frame [OF d] k show ?thesis by simp
next
  case (Handover k)
  with st k off show ?thesis by (auto dest!: handover_frame)
next
  case (Emit k)
  with st k off show ?thesis by (auto simp: emit_frame)
next
  case Tick
  with st k off show ?thesis by (auto split: if_splits dest!: loop_takes_frame)
next
  case Terminate
  with st k off show ?thesis by (auto split: if_splits dest!: loop_takes_frame)
qed

lemma exec_keeps_inactive:
  "exec sys acts = Inr sys' \<Longrightarrow> k < length (spinners (sp sys)) \<Longrightarrow>
   \<not> active (spinners (sp sys) ! k) \<Longrightarrow> \<forall>m. CallStart (int k) m \<notin> set acts \<Longrightarrow>
   k < length (spinners (sp sys')) \<and> \<not> active (spinners (sp sys') ! k)"
proof (induction acts arbitrary: sys)
  case Nil
  then show ?case by simp
next
  case (Cons a acts)
  from Cons.prems(1) obtain mid where s: "step sys a = Inr mid" and e: "exec mid acts = Inr sys'"
    by (auto split: sum.splits)
  from Cons.prems(4) have a: "\<forall>m. a \<noteq> CallStart (int k) m"
    and rest: "\<forall>m. CallStart (int k) m \<notin> set acts" by auto
  from step_keeps_inactive [OF s Cons.prems(2,3) a]
  have "k < length (spinners (sp mid))" and "\<not> active (spinners (sp mid) ! k)" by simp_all
  from Cons.IH [OF e this rest] show ?case .
qed

text \<open>
  C7, as stated: a stopped record is never active again.  It fails: \<open>Start\<close> sets the
  flag of any registered record, so after \<open>Register\<close>, \<open>Start\<close> and \<open>Stop\<close> have left
  record 0 inactive, a second \<open>Start(0, ...)\<close> makes it active.
\<close>

theorem stopped_is_not_terminal:
  "exec (boot DefaultConfig)
     [CallRegister, CallStart 0 ''A'', Handover 0,
      CallStop 0 ''ok'', Handover 1, Emit 1, Emit 1, Emit 1] =
     Inr \<lparr>sp = \<lparr>spinners = [\<lparr>message = ''A'', index = 0, active = False, lineNum = 0\<rparr>],
                successColor = ESC # ''[32m'', failureColor = ESC # ''[31m'',
                frequency = 100000000, currentLine = 1, activeCount = 0, startLine = 0\<rparr>,
          lp = \<lparr>loop_i = 0, firstRun = True\<rparr>,
          terminal =
            [Print (ESC # ''[?25h''), Print (ESC # ''[0m''), Print (ESC # ''[s''),
             Print (ESC # ''[?25l''),
             Print (ESC # ''[?25h''), Print (ESC # ''[0m''),
             Print (ESC # ''[u''),
             Print (ESC # ''[K'' @ ESC # ''[32m'' @ [CHR 0xE2, CHR 0x9C, CHR 0x93] @
                    ESC # ''[32m ok'' @ ESC # ''[0m'' @ [CHR 0x0A]),
             Sync],
          running = True,
          calls = [([], []), ([], [])]\<rparr> \<and>
   exec (boot DefaultConfig)
     [CallRegister, CallStart 0 ''A'', Handover 0,
      CallStop 0 ''ok'', Handover 1, Emit 1, Emit 1, Emit 1,
      CallStart 0 ''again'', Handover 2] =
     Inr \<lparr>sp = \<lparr>spinners = [\<lparr>message = ''again'', index = 0, active = True, lineNum = 0\<rparr>],
                successColor = ESC # ''[32m'', failureColor = ESC # ''[31m'',
                frequency = 100000000, currentLine = 1, activeCount = 1, startLine = 0\<rparr>,
          lp = \<lparr>loop_i = 0, firstRun = True\<rparr>,
          terminal =
            [Print (ESC # ''[?25h''), Print (ESC # ''[0m''), Print (ESC # ''[s''),
             Print (ESC # ''[?25l''),
             Print (ESC # ''[?25h''), Print (ESC # ''[0m''),
             Print (ESC # ''[u''),
             Print (ESC # ''[K'' @ ESC # ''[32m'' @ [CHR 0xE2, CHR 0x9C, CHR 0x93] @
                    ESC # ''[32m ok'' @ ESC # ''[0m'' @ [CHR 0x0A]),
             Sync,
             Print (ESC # ''[?25l'')],
          running = True,
          calls = [([], []), ([], []), ([], [])]\<rparr>"
  by code_simp

text \<open>
  C7, amended.  A spinner is inactive when registered, active after \<open>Start\<close>, inactive
  again after \<open>Stop\<close> or \<open>StopWithError\<close>.  An inactive record stays inactive through
  every sequence of steps that holds no \<open>Start\<close> on its own index (\<open>Register\<close>,
  \<open>Message\<close>, \<open>Stop\<close>, \<open>StopWithError\<close>, \<open>Start\<close> on other indices, hand-overs and
  prints of calls in flight, loop iterations, the stop signal), and \<open>Start\<close> on its
  index makes it active again.
\<close>

theorem inactive_until_Start:
  assumes "k < length (spinners (sp sys))" and "\<not> active (spinners (sp sys) ! k)"
  shows "(exec sys acts = Inr sys' \<and> (\<forall>m. CallStart (int k) m \<notin> set acts) \<longrightarrow>
            k < length (spinners (sp sys')) \<and> \<not> active (spinners (sp sys') ! k)) \<and>
         (\<exists>s'. Start (sp sys) (int k) text =
                  Inr (s', [\<lparr>u_index = int k, u_message = text, action = ''start''\<rparr>], []) \<and>
               active (spinners s' ! k))"
proof
  show "exec sys acts = Inr sys' \<and> (\<forall>m. CallStart (int k) m \<notin> set acts) \<longrightarrow>
          k < length (spinners (sp sys')) \<and> \<not> active (spinners (sp sys') ! k)"
    using exec_keeps_inactive [of sys acts sys' k] assms by blast
  show "\<exists>s'. Start (sp sys) (int k) text =
                Inr (s', [\<lparr>u_index = int k, u_message = text, action = ''start''\<rparr>], []) \<and>
             active (spinners s' ! k)"
    using assms(1) by (simp add: Start_def slice_index_def)
qed

theorem inactive_until_Start_witness:
  "\<exists>sys sys' s'.
     exec (boot DefaultConfig) [CallRegister, CallStart 0 ''A'', Handover 0, CallStop 0 ''ok'', Handover 1, Emit 1,
        Emit 1, Emit 1] = Inr sys \<and>
     0 < length (spinners (sp sys)) \<and> \<not> active (spinners (sp sys) ! 0) \<and>
     exec sys [CallRegister, CallStart 1 ''B'', Tick, Handover 2, CallMessage 0 ''C'', Handover 3,
               Tick, CallStop 0 ''D'', Emit 1,
               CallStopWithError 0 ''E'', Terminate] = Inr sys' \<and>
     (\<forall>m. CallStart (int 0) m \<notin>
        set [CallRegister, CallStart 1 ''B'', Tick, Handover 2, CallMessage 0 ''C'', Handover 3,
               Tick, CallStop 0 ''D'', Emit 1,
             CallStopWithError 0 ''E'', Terminate]) \<and>
     \<not> active (spinners (sp sys') ! 0) \<and>
     Start (sp sys) (int 0) ''again'' =
       Inr (s', [\<lparr>u_index = int 0, u_message = ''again'', action = ''start''\<rparr>], []) \<and>
     active (spinners s' ! 0)"
proof -
  obtain sys where run: "exec (boot DefaultConfig) [CallRegister, CallStart 0 ''A'', Handover 0, CallStop 0 ''ok'', Handover 1, Emit 1,
        Emit 1, Emit 1] = Inr sys"
    and k: "0 < length (spinners (sp sys))" and off: "\<not> active (spinners (sp sys) ! 0)"
    by (simp add: model_defs)
  let ?acts = "[CallRegister, CallStart 1 ''B'', Tick, Handover 2, CallMessage 0 ''C'', Handover 3,
               Tick, CallStop 0 ''D'', Emit 1,
               CallStopWithError 0 ''E'', Terminate]"
  obtain sys' where
    "exec (boot DefaultConfig) ([CallRegister, CallStart 0 ''A'', Handover 0, CallStop 0 ''ok'', Handover 1, Emit 1,
        Emit 1, Emit 1] @ ?acts) = Inr sys'"
    by (simp add: model_defs)
  with run have after: "exec sys ?acts = Inr sys'"
    by (simp only: exec_append sum.case)
  have no: "\<forall>m. CallStart (int 0) m \<notin> set ?acts"
    by simp
  from inactive_until_Start [OF k off, of ?acts sys' "''again''"] run k off after no
  show ?thesis by blast
qed

subsection \<open>The final line\<close>






text \<open>
  C10.  The line \<open>Stop\<close> prints for an active record is: clear-line, the success colour,
  the check mark, the success colour again, a space, the message, the reset escape, a
  newline.  Nothing but the space stands between the second colour escape and the
  message, and the reset comes after the message.  \<open>StopWithError\<close> prints the same line
  with the failure colour and the cross.
\<close>

theorem final_line_keeps_colour:
  assumes "0 \<le> idx" and "idx < int (length (spinners s))" and "active (spinners s ! nat idx)"
  shows "Stop s idx text =
           Inr (s\<lparr>spinners := (spinners s)[nat idx := (spinners s ! nat idx)\<lparr>active := False\<rparr>]\<rparr>,
                [\<lparr>u_index = idx, u_message = text, action = ''stop''\<rparr>],
                Print (ESC # ''[u'') #
                (if 0 < lineNum (spinners s ! nat idx)
                 then [Print (ESC # ''['' @ itoa (lineNum (spinners s ! nat idx)) @ ''B'')] else []) @
                [Print (ESC # ''[K'' @ successColor s @ [CHR 0xE2, CHR 0x9C, CHR 0x93] @
                        successColor s @ '' '' @ text @ ESC # ''[0m'' @ [CHR 0x0A]),
                 Sync]) \<and>
         StopWithError s idx text =
           Inr (s\<lparr>spinners := (spinners s)[nat idx := (spinners s ! nat idx)\<lparr>active := False\<rparr>]\<rparr>,
                [\<lparr>u_index = idx, u_message = text, action = ''error''\<rparr>],
                Print (ESC # ''[u'') #
                (if 0 < lineNum (spinners s ! nat idx)
                 then [Print (ESC # ''['' @ itoa (lineNum (spinners s ! nat idx)) @ ''B'')] else []) @
                [Print (ESC # ''[K'' @ failureColor s @ [CHR 0xE2, CHR 0x9C, CHR 0x97] @
                        failureColor s @ '' '' @ text @ ESC # ''[0m'' @ [CHR 0x0A]),
                 Sync])"
  using assms by (simp add: Stop_def StopWithError_def slice_index_def final_paint_def)

theorem final_line_keeps_colour_witness:
  "(0 :: int) \<le> 1 \<and>
   1 < int (length (spinners
         \<lparr>spinners = [\<lparr>message = ''A'', index = 0, active = False, lineNum = 0\<rparr>,
                      \<lparr>message = ''B'', index = 1, active = True, lineNum = 1\<rparr>],
          successColor = ''<g>'', failureColor = ''<r>'', frequency = 5,
          currentLine = 2, activeCount = 1, startLine = 0\<rparr>)) \<and>
   Stop \<lparr>spinners = [\<lparr>message = ''A'', index = 0, active = False, lineNum = 0\<rparr>,
                     \<lparr>message = ''B'', index = 1, active = True, lineNum = 1\<rparr>],
         successColor = ''<g>'', failureColor = ''<r>'', frequency = 5,
         currentLine = 2, activeCount = 1, startLine = 0\<rparr> 1 ''ok'' =
     Inr (\<lparr>spinners = [\<lparr>message = ''A'', index = 0, active = False, lineNum = 0\<rparr>,
                        \<lparr>message = ''B'', index = 1, active = False, lineNum = 1\<rparr>],
            successColor = ''<g>'', failureColor = ''<r>'', frequency = 5,
            currentLine = 2, activeCount = 1, startLine = 0\<rparr>,
          [\<lparr>u_index = 1, u_message = ''ok'', action = ''stop''\<rparr>],
          [Print (ESC # ''[u''), Print (ESC # ''[1B''),
           Print (ESC # ''[K<g>'' @ [CHR 0xE2, CHR 0x9C, CHR 0x93] @ ''<g> ok'' @ ESC # ''[0m'' @
                  [CHR 0x0A]),
           Sync]) \<and>
   StopWithError \<lparr>spinners = [\<lparr>message = ''A'', index = 0, active = False, lineNum = 0\<rparr>,
                     \<lparr>message = ''B'', index = 1, active = True, lineNum = 1\<rparr>],
         successColor = ''<g>'', failureColor = ''<r>'', frequency = 5,
         currentLine = 2, activeCount = 1, startLine = 0\<rparr> 1 ''ok'' =
     Inr (\<lparr>spinners = [\<lparr>message = ''A'', index = 0, active = False, lineNum = 0\<rparr>,
                        \<lparr>message = ''B'', index = 1, active = False, lineNum = 1\<rparr>],
            successColor = ''<g>'', failureColor = ''<r>'', frequency = 5,
            currentLine = 2, activeCount = 1, startLine = 0\<rparr>,
          [\<lparr>u_index = 1, u_message = ''ok'', action = ''error''\<rparr>],
          [Print (ESC # ''[u''), Print (ESC # ''[1B''),
           Print (ESC # ''[K<r>'' @ [CHR 0xE2, CHR 0x9C, CHR 0x97] @ ''<r> ok'' @ ESC # ''[0m'' @
                  [CHR 0x0A]),
           Sync])"
proof -
  let ?s = "\<lparr>spinners = [\<lparr>message = ''A'', index = 0, active = False, lineNum = 0\<rparr>,
                          \<lparr>message = ''B'', index = 1, active = True, lineNum = 1\<rparr>],
              successColor = ''<g>'', failureColor = ''<r>'', frequency = 5,
              currentLine = 2, activeCount = 1, startLine = 0\<rparr>"
  have a: "(0 :: int) \<le> 1" by simp
  have b: "1 < int (length (spinners ?s))" by simp
  have c: "active (spinners ?s ! nat 1)" by simp
  have one: "itoa 1 = ''1''"
    by code_simp
  from final_line_keeps_colour [OF a b c, of "''ok''"] one show ?thesis
    by simp
qed

end
